theory Spec2Isabelle
  imports Main "HOL-Library.AList"
begin

section \<open>Events (package events)\<close>

text \<open>
  Go's \<^verbatim>\<open>interface{}\<close> values, as far as the modelled code inspects them: the loop agent
  type-asserts a state value to \<^verbatim>\<open>bool\<close>, the LLM agent stores a \<^verbatim>\<open>string\<close>.
\<close>

datatype any = AnyNil | AnyBool bool | AnyString string | AnyInt int

record Part =
  Text :: string

record Content =
  Role :: string
  Parts :: "Part list"

record EventActions =
  TransferToAgent :: string
  Escalate :: bool
  SkipSummarization :: bool
  StateDelta :: "string \<rightharpoonup> any"
  ArtifactDelta :: "string \<rightharpoonup> any"
  RequestedAuthConfigs :: "any list"

text \<open>
  \<^verbatim>\<open>Content *Content\<close> may be nil, hence an option. \<^verbatim>\<open>time.Time\<close> values are
  natural numbers (ticks of the wall clock).
\<close>

record Event =
  ID :: string
  InvocationID :: string
  Timestamp :: nat
  Author :: string
  Content :: "Content option"
  Branch :: string
  IsFinalResponse :: bool
  Actions :: EventActions
  LongRunningToolIDs :: "string list"

text \<open>The zero value \<^verbatim>\<open>EventActions{}\<close>.\<close>

definition EventActions_zero :: EventActions where
  "EventActions_zero =
     \<lparr>TransferToAgent = [], Escalate = False, SkipSummarization = False,
      StateDelta = Map.empty, ArtifactDelta = Map.empty, RequestedAuthConfigs = []\<rparr>"

text \<open>
  \<^verbatim>\<open>NewEvent\<close>: the results of \<^verbatim>\<open>uuid.New().String()\<close> and \<^verbatim>\<open>time.Now()\<close> are the
  parameters \<open>uid\<close> and \<open>now\<close>; every other field has Go's zero value.
\<close>

definition NewEvent :: "string \<Rightarrow> nat \<Rightarrow> Event" where
  "NewEvent uid now =
     \<lparr>Event.ID = uid, InvocationID = [], Timestamp = now, Author = [], Content = None,
      Branch = [], IsFinalResponse = False, Actions = EventActions_zero,
      LongRunningToolIDs = []\<rparr>"

section \<open>Session state (package sessions)\<close>

text \<open>
  The content of a \<^verbatim>\<open>State\<close> object: its \<^verbatim>\<open>data\<close> map. Each method body runs under the
  object's lock; the model is sequential, so a method is one function on the content.
\<close>

type_synonym State = "string \<rightharpoonup> any"

definition NewState :: State where
  "NewState = Map.empty"

definition NewStateWithData :: "State \<Rightarrow> State" where
  "NewStateWithData data = Map.empty ++ data"

text \<open>\<^verbatim>\<open>Get\<close> returns \<^verbatim>\<open>(value, exists)\<close>: \<open>None\<close> is \<^verbatim>\<open>exists == false\<close>.\<close>

definition State_Get :: "State \<Rightarrow> string \<Rightarrow> any option" where
  "State_Get s key = s key"

definition State_Set :: "State \<Rightarrow> string \<Rightarrow> any \<Rightarrow> State" where
  "State_Set s key v = s(key \<mapsto> v)"

definition State_Update :: "State \<Rightarrow> State \<Rightarrow> State" where
  "State_Update s updates = s ++ updates"

section \<open>Sessions and the in-memory session service\<close>

record Session =
  ID :: string
  AppName :: string
  UserID :: string
  State :: State
  Events :: "Event list"
  LastUpdateTime :: nat

text \<open>
  \<^verbatim>\<open>NewSession\<close>: \<open>uid\<close> is the result of \<^verbatim>\<open>uuid.New().String()\<close>, used only when the
  given session id is empty; \<open>initialState\<close> is \<open>None\<close> for a nil map.
\<close>

definition NewSession :: "string \<Rightarrow> nat \<Rightarrow> string \<Rightarrow> string \<Rightarrow> string \<Rightarrow> State option \<Rightarrow> Session" where
  "NewSession uid now appName userID sessionID initialState =
     \<lparr>Session.ID = (if sessionID = [] then uid else sessionID),
      AppName = appName, UserID = userID,
      State = (case initialState of Some data \<Rightarrow> NewStateWithData data | None \<Rightarrow> NewState),
      Events = [], LastUpdateTime = now\<rparr>"

definition AddEvent :: "Session \<Rightarrow> nat \<Rightarrow> Event \<Rightarrow> Session" where
  "AddEvent s now event = s\<lparr>Events := Events s @ [event], LastUpdateTime := now\<rparr>"

definition GetEvents :: "Session \<Rightarrow> Event list" where
  "GetEvents s = Events s"

text \<open>
  \<^verbatim>\<open>InMemorySessionService\<close> holds \<^verbatim>\<open>map[string]*Session\<close>: the map's values are
  pointers, and the Runner mutates a session through the pointer that \<^verbatim>\<open>GetSession\<close>
  handed out. So the model has the map from keys to addresses (\<open>sessions\<close>, an
  association list with one entry per key; Go leaves the iteration order of a map
  open, the list fixes one), the memory the addresses point into (\<open>objects\<close>) and the
  next address that \<^verbatim>\<open>&Session{...}\<close> allocates (\<open>next_ptr\<close>).
\<close>

record InMemorySessionService =
  sessions :: "(string \<times> nat) list"
  objects :: "nat \<Rightarrow> Session"
  next_ptr :: nat

text \<open>Memory that was never allocated holds the zero \<^verbatim>\<open>Session\<close>.\<close>

definition Session_zero :: Session where
  "Session_zero =
     \<lparr>Session.ID = [], AppName = [], UserID = [], State = Map.empty, Events = [],
      LastUpdateTime = 0\<rparr>"

definition NewInMemorySessionService :: InMemorySessionService where
  "NewInMemorySessionService = \<lparr>sessions = [], objects = (\<lambda>_. Session_zero), next_ptr = 0\<rparr>"

datatype error = Error string

definition sessionKey :: "string \<Rightarrow> string \<Rightarrow> string \<Rightarrow> string" where
  "sessionKey appName userID sessionID = appName @ '':'' @ userID @ '':'' @ sessionID"

text \<open>
  Every method returns Go's result tuple, with \<open>None\<close> for a nil pointer and for a nil
  error, and the service after the call.
\<close>

definition CreateSession ::
  "InMemorySessionService \<Rightarrow> string \<Rightarrow> nat \<Rightarrow> string \<Rightarrow> string \<Rightarrow> string \<Rightarrow> State option
     \<Rightarrow> (nat option \<times> error option) \<times> InMemorySessionService" where
  "CreateSession s uid now appName userID sessionID initialState =
     (let session = NewSession uid now appName userID sessionID initialState;
          p = next_ptr s;
          key = sessionKey appName userID sessionID
      in ((Some p, None),
          s\<lparr>sessions := AList.update key p (sessions s),
            objects := (objects s)(p := session),
            next_ptr := Suc p\<rparr>))"

definition GetSession ::
  "InMemorySessionService \<Rightarrow> string \<Rightarrow> string \<Rightarrow> string \<Rightarrow> nat option \<times> error option" where
  "GetSession s appName userID sessionID =
     (let key = sessionKey appName userID sessionID
      in case map_of (sessions s) key of
           None \<Rightarrow> (None, None)
         | Some p \<Rightarrow> (Some p, None))"

definition DeleteSession ::
  "InMemorySessionService \<Rightarrow> string \<Rightarrow> string \<Rightarrow> string \<Rightarrow> error option \<times> InMemorySessionService" where
  "DeleteSession s appName userID sessionID =
     (let key = sessionKey appName userID sessionID
      in (None, s\<lparr>sessions := AList.delete key (sessions s)\<rparr>))"

text \<open>
  \<^verbatim>\<open>key[:len(prefix)] == prefix\<close> is evaluated only when \<^verbatim>\<open>len(key) > len(prefix)\<close>, so the
  slice is in range.
\<close>

definition ListSessions ::
  "InMemorySessionService \<Rightarrow> string \<Rightarrow> string \<Rightarrow> nat list \<times> error option" where
  "ListSessions s appName userID =
     (let prefix = appName @ '':'' @ userID @ '':''
      in (map snd (filter (\<lambda>(key, session).
                      length key > length prefix \<and> take (length prefix) key = prefix)
                    (sessions s)),
          None))"

definition AppendEvent ::
  "InMemorySessionService \<Rightarrow> nat \<Rightarrow> string \<Rightarrow> string \<Rightarrow> string \<Rightarrow> Event
     \<Rightarrow> error option \<times> InMemorySessionService" where
  "AppendEvent s now appName userID sessionID event =
     (let key = sessionKey appName userID sessionID
      in case map_of (sessions s) key of
           None \<Rightarrow> (None, s)
         | Some p \<Rightarrow> (None, s\<lparr>objects := (objects s)(p := AddEvent (objects s p) now event)\<rparr>))"

definition ListEvents ::
  "InMemorySessionService \<Rightarrow> string \<Rightarrow> string \<Rightarrow> string \<Rightarrow> Event list option \<times> error option" where
  "ListEvents s appName userID sessionID =
     (let key = sessionKey appName userID sessionID
      in case map_of (sessions s) key of
           None \<Rightarrow> (None, None)
         | Some p \<Rightarrow> (Some (GetEvents (objects s p)), None))"

definition CloseSession ::
  "InMemorySessionService \<Rightarrow> string \<Rightarrow> string \<Rightarrow> string \<Rightarrow> error option" where
  "CloseSession s appName userID sessionID = None"

section \<open>Agents (package agents)\<close>

record InvocationContext =
  Session :: Session

text \<open>
  \<^verbatim>\<open>RunAsync\<close> returns a channel and an error. The goroutine behind the channel does two
  kinds of things that another agent can see: it sends an event, and it calls
  \<^verbatim>\<open>State.Set\<close> on the state of the session in its context. A stream is the sequence of
  these, in the order the goroutine performs them; the channels are unbuffered, so a
  send is complete when the consumer has the event. A stream here is one that ends
  (the producer closes its channel).
\<close>

datatype action = Emit Event | Write string any

text \<open>
  The combinators call nothing but \<^verbatim>\<open>RunAsync\<close> on a sub-agent, so a value of the
  interface \<^verbatim>\<open>Agent\<close> is its \<^verbatim>\<open>RunAsync\<close>: given the context, with the session state as
  it is at the call, an error or the stream.
\<close>

type_synonym Agent = "InvocationContext \<Rightarrow> error + action list"

text \<open>
  A callback \<^verbatim>\<open>func(ctx *InvocationContext) error\<close>: the writes it makes to the session
  state, and the error it returns.
\<close>

type_synonym Callback = "InvocationContext \<Rightarrow> (string \<times> any) list \<times> error option"

fun emitted :: "action list \<Rightarrow> Event list" where
  "emitted [] = []"
| "emitted (Emit e # tr) = e # emitted tr"
| "emitted (Write k v # tr) = emitted tr"

text \<open>The context after the writes of a stream: the state object is shared.\<close>

fun perform :: "InvocationContext \<Rightarrow> action list \<Rightarrow> InvocationContext" where
  "perform c [] = c"
| "perform c (Emit e # tr) = perform c tr"
| "perform c (Write k v # tr) =
     perform (c\<lparr>Session := (Session c)\<lparr>State := State_Set (State (Session c)) k v\<rparr>\<rparr>) tr"

definition writes :: "(string \<times> any) list \<Rightarrow> action list" where
  "writes ws = map (\<lambda>(k, v). Write k v) ws"

text \<open>\<^verbatim>\<open>if cb != nil { if err := cb(ctx); err != nil { ... } }\<close>\<close>

definition call :: "Callback option \<Rightarrow> InvocationContext \<Rightarrow> (string \<times> any) list \<times> error option" where
  "call cb c = (case cb of None \<Rightarrow> ([], None) | Some f \<Rightarrow> f c)"

record BaseAgent =
  Name :: string
  Description :: string
  SubAgents :: "Agent list"
  BeforeAgentCallback :: "Callback option"
  AfterAgentCallback :: "Callback option"

definition NewBaseAgent :: "string \<Rightarrow> string \<Rightarrow> BaseAgent" where
  "NewBaseAgent name description =
     \<lparr>Name = name, Description = description, SubAgents = [],
      BeforeAgentCallback = None, AfterAgentCallback = None\<rparr>"

definition AddSubAgent :: "BaseAgent \<Rightarrow> Agent \<Rightarrow> BaseAgent" where
  "AddSubAgent a subAgent = a\<lparr>SubAgents := SubAgents a @ [subAgent]\<rparr>"

text \<open>\<^verbatim>\<open>BaseAgent.RunAsync\<close>: a channel that is closed at once.\<close>

definition BaseAgent_RunAsync :: "BaseAgent \<Rightarrow> Agent" where
  "BaseAgent_RunAsync a invocationCtx = Inr []"

subsection \<open>SequentialAgent\<close>

definition NewSequentialAgent :: "string \<Rightarrow> Agent list \<Rightarrow> BaseAgent" where
  "NewSequentialAgent name subAgents =
     foldl AddSubAgent (NewBaseAgent name ''Sequential execution agent'') subAgents"

text \<open>
  The loop over \<^verbatim>\<open>a.SubAgents\<close>: a sub-agent whose \<^verbatim>\<open>RunAsync\<close> returns an error is
  skipped (\<^verbatim>\<open>continue\<close>), the stream of any other is forwarded to its end.
\<close>

fun forward_all :: "Agent list \<Rightarrow> InvocationContext \<Rightarrow> action list" where
  "forward_all [] c = []"
| "forward_all (subAgent # rest) c =
     (case subAgent c of
        Inl err \<Rightarrow> forward_all rest c
      | Inr stream \<Rightarrow> stream @ forward_all rest (perform c stream))"

definition SequentialAgent_RunAsync :: "BaseAgent \<Rightarrow> Agent" where
  "SequentialAgent_RunAsync a invocationCtx =
     (let (bw, berr) = call (BeforeAgentCallback a) invocationCtx
      in if berr \<noteq> None then Inr (writes bw)
         else
           let c1 = perform invocationCtx (writes bw);
               body = forward_all (SubAgents a) c1;
               (aw, aerr) = call (AfterAgentCallback a) (perform c1 body)
           in Inr (writes bw @ body @ writes aw))"

subsection \<open>LoopAgent\<close>

record LoopAgent = BaseAgent +
  MaxIterations :: int

text \<open>\<^verbatim>\<open>NewLoopAgent\<close>: the base agent with the sub-agents added in order, and the cap.\<close>

definition NewLoopAgent :: "string \<Rightarrow> Agent list \<Rightarrow> int \<Rightarrow> LoopAgent" where
  "NewLoopAgent name subAgents maxIterations =
     \<lparr>Name = name, Description = ''Loop execution agent'', SubAgents = subAgents,
      BeforeAgentCallback = None, AfterAgentCallback = None,
      MaxIterations = maxIterations\<rparr>"

definition shouldExitLoop :: "InvocationContext \<Rightarrow> bool" where
  "shouldExitLoop invocationCtx =
     (case State_Get (State (Session invocationCtx)) ''exit_loop'' of
        Some exitFlag \<Rightarrow> (case exitFlag of AnyBool exit \<Rightarrow> exit | _ \<Rightarrow> False)
      | None \<Rightarrow> False)"

definition shouldExitLoopFromEvent :: "Event \<Rightarrow> bool" where
  "shouldExitLoopFromEvent event = SkipSummarization (Actions event)"

text \<open>
  Forwarding one sub-agent's stream inside the loop. The flag is true when an event
  made the loop jump to \<^verbatim>\<open>exitLoop\<close>; the rest of the stream is then never received. (The
  abandoned goroutine stays blocked in its next send; what it writes to the state
  before that send is concurrent with the after-agent callback and is left out.)
\<close>

fun forward_until_exit :: "action list \<Rightarrow> action list \<times> bool" where
  "forward_until_exit [] = ([], False)"
| "forward_until_exit (Write k v # stream) =
     (let (tr, exit) = forward_until_exit stream in (Write k v # tr, exit))"
| "forward_until_exit (Emit event # stream) =
     (if shouldExitLoopFromEvent event then ([Emit event], True)
      else let (tr, exit) = forward_until_exit stream in (Emit event # tr, exit))"

text \<open>One iteration: the loop over \<^verbatim>\<open>a.SubAgents\<close>.\<close>

fun loop_iteration :: "Agent list \<Rightarrow> InvocationContext \<Rightarrow> action list \<times> bool" where
  "loop_iteration [] c = ([], False)"
| "loop_iteration (subAgent # rest) c =
     (case subAgent c of
        Inl err \<Rightarrow> loop_iteration rest c
      | Inr stream \<Rightarrow>
          (let (tr, exit) = forward_until_exit stream
           in if exit then (tr, True)
              else let (tr', exit') = loop_iteration rest (perform c tr)
                   in (tr @ tr', exit')))"

text \<open>\<^verbatim>\<open>for iteration := 0; iteration < a.MaxIterations; iteration++\<close>, from \<open>iteration\<close> on.\<close>

function loop_from :: "LoopAgent \<Rightarrow> InvocationContext \<Rightarrow> int \<Rightarrow> action list" where
  "loop_from a c iteration =
     (if iteration < MaxIterations a then
        (if shouldExitLoop c then []
         else
           (let (tr, exit) = loop_iteration (SubAgents a) c
            in if exit then tr
               else tr @ loop_from a (perform c tr) (iteration + 1)))
      else [])"
  by pat_completeness auto
termination
  by (relation "measure (\<lambda>(a, c, iteration). nat (MaxIterations a - iteration))") auto

declare loop_from.simps [simp del]

definition LoopAgent_RunAsync :: "LoopAgent \<Rightarrow> Agent" where
  "LoopAgent_RunAsync a invocationCtx =
     (let (bw, berr) = call (BeforeAgentCallback a) invocationCtx
      in if berr \<noteq> None then Inr (writes bw)
         else
           let c1 = perform invocationCtx (writes bw);
               body = loop_from a c1 0;
               (aw, aerr) = call (AfterAgentCallback a) (perform c1 body)
           in Inr (writes bw @ body @ writes aw))"

section \<open>Models and the registry (package models)\<close>

text \<open>
  The modelled code hands \<^verbatim>\<open>*GenerateContentConfig\<close> and \<^verbatim>\<open>tools.Tool\<close> values on to the
  backend and never looks inside them: each is the address of its object.
\<close>

type_synonym GenerateContentConfig = nat

type_synonym Tool = nat

record LLMRequest =
  Contents :: "Content list"
  Config :: "GenerateContentConfig option"
  Tools :: "Tool list"

text \<open>
  A value of the interface \<^verbatim>\<open>LLM\<close> is a pointer to a backend object: \<open>handle\<close> is the
  address, the two other fields are the methods that the modelled code calls. The
  backend answers a request with an error or with the events of its stream.
\<close>

record LLM =
  handle :: nat
  GetModelName :: string
  GenerateContentAsync :: "LLMRequest \<Rightarrow> error + Event list"

text \<open>
  \<^verbatim>\<open>GeminiLLM\<close>: the mock answer is one final event. \<open>uid\<close> and \<open>now\<close> are what
  \<^verbatim>\<open>events.NewEvent\<close> reads from \<^verbatim>\<open>uuid\<close> and the clock.
\<close>

definition GeminiLLM_GenerateContentAsync :: "string \<Rightarrow> nat \<Rightarrow> string \<Rightarrow> LLMRequest \<Rightarrow> error + Event list" where
  "GeminiLLM_GenerateContentAsync uid now modelName request =
     Inr [(NewEvent uid now)
            \<lparr>Author := modelName,
             Content := Some \<lparr>Role = ''model'',
                              Parts = [\<lparr>Text = ''Mock response from '' @ modelName\<rparr>]\<rparr>,
             IsFinalResponse := True\<rparr>]"

definition NewGeminiLLM :: "string \<Rightarrow> nat \<Rightarrow> string \<Rightarrow> nat \<Rightarrow> LLM" where
  "NewGeminiLLM uid now modelName address =
     \<lparr>handle = address, GetModelName = modelName,
      GenerateContentAsync = GeminiLLM_GenerateContentAsync uid now modelName\<rparr>"

text \<open>
  The registry. A factory \<^verbatim>\<open>func(string) LLM\<close> allocates: it gets, besides the model
  name, the address for the object it creates, and may return the nil interface
  (\<open>None\<close>). \<open>factory_calls\<close> counts the calls of factories; it is the next address.
\<close>

record LLMRegistry =
  models :: "string \<rightharpoonup> (string \<Rightarrow> nat \<Rightarrow> LLM option)"
  instances :: "string \<rightharpoonup> LLM option"
  factory_calls :: nat

definition Register :: "LLMRegistry \<Rightarrow> string \<Rightarrow> (string \<Rightarrow> nat \<Rightarrow> LLM option) \<Rightarrow> LLMRegistry" where
  "Register registry modelType factory = registry\<lparr>models := (models registry)(modelType \<mapsto> factory)\<rparr>"

text \<open>\<^verbatim>\<open>defaultRegistry\<close> after \<^verbatim>\<open>init\<close>.\<close>

definition defaultRegistry :: "string \<Rightarrow> nat \<Rightarrow> LLMRegistry" where
  "defaultRegistry uid now =
     Register \<lparr>models = Map.empty, instances = Map.empty, factory_calls = 0\<rparr> ''gemini''
       (\<lambda>modelName address. Some (NewGeminiLLM uid now modelName address))"

definition NewLLM :: "string \<Rightarrow> LLMRegistry \<Rightarrow> (error + LLM option) \<times> LLMRegistry" where
  "NewLLM modelName registry =
     (case instances registry modelName of
        Some instance \<Rightarrow> (Inr instance, registry)
      | None \<Rightarrow>
          if length modelName \<ge> 6 \<and> take 6 modelName = ''gemini'' then
            (case models registry ''gemini'' of
               None \<Rightarrow> (Inl (Error (''no factory registered for model type: '' @ ''gemini'')), registry)
             | Some factory \<Rightarrow>
                 (let instance = factory modelName (factory_calls registry)
                  in (Inr instance,
                      registry\<lparr>instances := (instances registry)(modelName \<mapsto> instance),
                               factory_calls := Suc (factory_calls registry)\<rparr>)))
          else (Inl (Error (''unsupported model: '' @ modelName)), registry))"

definition Resolve :: "string \<Rightarrow> LLMRegistry \<Rightarrow> (error + LLM option) \<times> LLMRegistry" where
  "Resolve modelName registry = NewLLM modelName registry"

section \<open>LlmAgent\<close>

definition IncludeContentsDefault :: string where
  "IncludeContentsDefault = ''default''"

definition IncludeContentsNone :: string where
  "IncludeContentsNone = ''none''"

text \<open>
  The fields of \<^verbatim>\<open>LlmAgent\<close> that its \<^verbatim>\<open>RunAsync\<close> and the functions it calls read;
  \<open>llm\<close> is the cached backend, \<open>None\<close> while it is nil.
\<close>

record LlmAgent = BaseAgent +
  Model :: string
  Instruction :: string
  GlobalInstruction :: string
  GenerateContentConfig :: "GenerateContentConfig option"
  OutputKey :: string
  IncludeContents :: string
  Tools :: "Tool list"
  BeforeModelCallback :: "Callback option"
  AfterModelCallback :: "Callback option"
  llm :: "LLM option"

definition NewLlmAgent :: "string \<Rightarrow> string \<Rightarrow> string \<Rightarrow> LlmAgent" where
  "NewLlmAgent name model instruction =
     \<lparr>Name = name, Description = [], SubAgents = [],
      BeforeAgentCallback = None, AfterAgentCallback = None,
      Model = model, Instruction = instruction, GlobalInstruction = [],
      GenerateContentConfig = None, OutputKey = [],
      IncludeContents = IncludeContentsDefault, Tools = [],
      BeforeModelCallback = None, AfterModelCallback = None, llm = None\<rparr>"


text \<open>The result is the returned backend, the agent (its cache) and the registry.\<close>

definition GetCanonicalModel :: "LlmAgent \<Rightarrow> LLMRegistry \<Rightarrow> LLM option \<times> LlmAgent \<times> LLMRegistry" where
  "GetCanonicalModel a registry =
     (if llm a = None then
        (case Resolve (Model a) registry of
           (Inl err, registry') \<Rightarrow> (None, a, registry')
         | (Inr l, registry') \<Rightarrow> (l, a\<lparr>llm := l\<rparr>, registry'))
      else (llm a, a, registry))"










section \<open>Runner (package runners)\<close>

text \<open>
  The session service of a Runner is the in-memory one, as in \<^verbatim>\<open>NewInMemoryRunner\<close>; it is
  passed to each function and returned, as the Runner holds a pointer to it.
\<close>

record Runner =
  Agent :: Agent
  AppName :: string

definition getOrCreateSession ::
  "Runner \<Rightarrow> InMemorySessionService \<Rightarrow> string \<Rightarrow> nat \<Rightarrow> string \<Rightarrow> string
     \<Rightarrow> (nat option \<times> error option) \<times> InMemorySessionService" where
  "getOrCreateSession r s uid now userID sessionID =
     (case GetSession s (Runner.AppName r) userID sessionID of
        (session, Some err) \<Rightarrow> ((None, Some err), s)
      | (Some session, None) \<Rightarrow> ((Some session, None), s)
      | (None, None) \<Rightarrow>
          (case CreateSession s uid now (Runner.AppName r) userID sessionID None of
             ((session, Some err), s') \<Rightarrow> ((None, Some err), s')
           | ((session, None), s') \<Rightarrow> ((session, None), s')))"

text \<open>
  What the relaying goroutine does, in order: a call of \<^verbatim>\<open>AppendEvent\<close>, a send on the
  output channel.
\<close>

datatype relay_step = CallAppendEvent Event | SendOutput Event

fun observed :: "relay_step list \<Rightarrow> Event list" where
  "observed [] = []"
| "observed (CallAppendEvent e # steps) = observed steps"
| "observed (SendOutput e # steps) = e # observed steps"

text \<open>
  The goroutine of \<^verbatim>\<open>RunAsync\<close> over the agent's stream. \<open>session\<close> is the address of the
  session whose copy is in the invocation context: the copy shares the state object, so
  a write of the agent lands in that session. \<open>tm n\<close> is the clock at the \<open>n\<close>-th event.
  The error that \<^verbatim>\<open>AppendEvent\<close> returns is dropped, as in the source.
\<close>

fun relay ::
  "Runner \<Rightarrow> InMemorySessionService \<Rightarrow> (nat \<Rightarrow> nat) \<Rightarrow> nat \<Rightarrow> string \<Rightarrow> string \<Rightarrow> nat
     \<Rightarrow> action list \<Rightarrow> InMemorySessionService \<times> relay_step list" where
  "relay r s tm n userID sessionID session [] = (s, [])"
| "relay r s tm n userID sessionID session (Write k v # stream) =
     relay r
       (s\<lparr>objects := (objects s)
            (session := (objects s session)\<lparr>State := State_Set (State (objects s session)) k v\<rparr>)\<rparr>)
       tm n userID sessionID session stream"
| "relay r s tm n userID sessionID session (Emit event # stream) =
     (let (err, s') = AppendEvent s (tm n) (Runner.AppName r) userID sessionID event;
          (s'', steps) = relay r s' tm (Suc n) userID sessionID session stream
      in (s'', CallAppendEvent event # SendOutput event # steps))"

text \<open>
  \<^verbatim>\<open>RunAsync\<close>. \<open>uid_session\<close> and \<open>uid_event\<close> are the identifiers that \<^verbatim>\<open>uuid\<close> would
  give to a new session and to the user event. \<open>now k\<close> is the clock at the \<open>k\<close>-th place
  where the function reads it (0 in \<^verbatim>\<open>NewSession\<close>, 1 in \<^verbatim>\<open>NewEvent\<close>, 2 in
  \<^verbatim>\<open>session.AddEvent\<close>, 3 in \<^verbatim>\<open>AppendEvent\<close>), \<open>tm\<close> the clock of the goroutine. The result
  is the error or the events that the caller receives until the output channel is
  closed, the service afterwards, and the steps of the goroutine.
\<close>

definition userEvent :: "string \<Rightarrow> nat \<Rightarrow> Content \<Rightarrow> Event" where
  "userEvent uid now newMessage = (NewEvent uid now)\<lparr>Author := ''user'', Content := Some newMessage\<rparr>"

definition Runner_RunAsync ::
  "Runner \<Rightarrow> InMemorySessionService \<Rightarrow> string \<Rightarrow> string \<Rightarrow> (nat \<Rightarrow> nat) \<Rightarrow> (nat \<Rightarrow> nat)
     \<Rightarrow> string \<Rightarrow> string \<Rightarrow> Content option
     \<Rightarrow> (error + Event list) \<times> InMemorySessionService \<times> relay_step list" where
  "Runner_RunAsync r s uid_session uid_event now tm userID sessionID newMessage =
     (case getOrCreateSession r s uid_session (now 0) userID sessionID of
        ((session, Some err), s1) \<Rightarrow>
          (Inl (Error (''failed to get or create session: '' @ (case err of Error m \<Rightarrow> m))), s1, [])
      | ((None, None), s1) \<Rightarrow> (Inl (Error ''nil pointer dereference''), s1, [])
      | ((Some session, None), s1) \<Rightarrow>
          (let s2 = (case newMessage of
                       None \<Rightarrow> s1
                     | Some message \<Rightarrow>
                         (let event = userEvent uid_event (now 1) message;
                              s1' = s1\<lparr>objects := (objects s1)
                                        (session := AddEvent (objects s1 session) (now 2) event)\<rparr>
                          in snd (AppendEvent s1' (now 3) (Runner.AppName r) userID sessionID event)));
               invocationCtx = \<lparr>Session = objects s2 session\<rparr>
           in case Agent r invocationCtx of
                Inl err \<Rightarrow>
                  (Inl (Error (''failed to run agent: '' @ (case err of Error m \<Rightarrow> m))), s2, [])
              | Inr stream \<Rightarrow>
                  (let (s3, steps) = relay r s2 tm 0 userID sessionID session stream
                   in (Inr (observed steps), s3, steps))))"

section \<open>Notions used to state the properties\<close>

text \<open>What the consumer of the channel of \<^verbatim>\<open>RunAsync\<close> receives; with an error there is no channel.\<close>

definition events_of :: "error + action list \<Rightarrow> Event list" where
  "events_of result = (case result of Inl err \<Rightarrow> [] | Inr stream \<Rightarrow> emitted stream)"

definition stream_of :: "error + action list \<Rightarrow> action list" where
  "stream_of result = (case result of Inl err \<Rightarrow> [] | Inr stream \<Rightarrow> stream)"

text \<open>The context in which the body of a combinator starts: after the before-agent callback.\<close>

definition started :: "Callback option \<Rightarrow> InvocationContext \<Rightarrow> InvocationContext" where
  "started cb c = perform c (writes (fst (call cb c)))"

text \<open>
  The output of each child of a sequence, in list order: the events of its whole
  stream, none for a child that returns an error. A child runs in the context that the
  children before it have left.
\<close>

fun child_outputs :: "Agent list \<Rightarrow> InvocationContext \<Rightarrow> Event list list" where
  "child_outputs [] c = []"
| "child_outputs (subAgent # rest) c =
     events_of (subAgent c) # child_outputs rest (perform c (stream_of (subAgent c)))"

text \<open>\<open>n\<close> full passes over the children, each pass as the sequential agent makes it.\<close>

fun passes :: "nat \<Rightarrow> Agent list \<Rightarrow> InvocationContext \<Rightarrow> action list" where
  "passes 0 subAgents c = []"
| "passes (Suc n) subAgents c =
     (let tr = forward_all subAgents c in tr @ passes n subAgents (perform c tr))"

text \<open>No event of the stream asks the loop to exit.\<close>

definition quiet :: "action list \<Rightarrow> bool" where
  "quiet tr = (\<forall>e \<in> set (emitted tr). \<not> shouldExitLoopFromEvent e)"

text \<open>
  In \<open>n\<close> passes nothing asks for an exit: the flag in the session state is not set
  when a pass starts, and no event of a pass signals an exit.
\<close>

fun no_exit_signal :: "nat \<Rightarrow> Agent list \<Rightarrow> InvocationContext \<Rightarrow> bool" where
  "no_exit_signal 0 subAgents c = True"
| "no_exit_signal (Suc n) subAgents c =
     (\<not> shouldExitLoop c \<and> quiet (forward_all subAgents c)
      \<and> no_exit_signal n subAgents (perform c (forward_all subAgents c)))"






text \<open>The steps of a goroutine that persists each event and then sends it.\<close>

definition persist_then_send :: "Event list \<Rightarrow> relay_step list" where
  "persist_then_send es = concat (map (\<lambda>e. [CallAppendEvent e, SendOutput e]) es)"

text \<open>The persisted event list of a session: what \<^verbatim>\<open>ListEvents\<close> returns, nothing if absent.\<close>

definition persisted :: "InMemorySessionService \<Rightarrow> string \<Rightarrow> string \<Rightarrow> string \<Rightarrow> Event list" where
  "persisted s appName userID sessionID =
     (case fst (ListEvents s appName userID sessionID) of Some es \<Rightarrow> es | None \<Rightarrow> [])"

section \<open>Example inputs\<close>

text \<open>A leaf agent that emits one final event and touches nothing else.\<close>

definition leaf_event :: "string \<Rightarrow> Event" where
  "leaf_event name = (NewEvent name 0)\<lparr>Author := name, IsFinalResponse := True\<rparr>"

definition leaf :: "string \<Rightarrow> Agent" where
  "leaf name c = Inr [Emit (leaf_event name)]"



definition failing_agent :: Agent where
  "failing_agent c = Inl (Error ''unavailable'')"

definition denied :: Callback where
  "denied c = ([], Some (Error ''denied''))"

definition ctx0 :: InvocationContext where
  "ctx0 = \<lparr>Session = NewSession ''uuid'' 0 ''app'' ''user'' ''s1'' None\<rparr>"

definition hello :: Content where
  "hello = \<lparr>Role = ''user'', Parts = [\<lparr>Text = ''hello''\<rparr>]\<rparr>"

definition runner0 :: Runner where
  "runner0 = \<lparr>Agent = leaf ''agent'', AppName = ''app''\<rparr>"



section \<open>Basic facts about streams\<close>

lemma emitted_append: "emitted (xs @ ys) = emitted xs @ emitted ys"
  by (induction xs rule: emitted.induct) auto



lemma emitted_writes: "emitted (writes ws) = []"
  by (induction ws) (auto simp: writes_def)



lemma quiet_Write: "quiet (Write k v # tr) = quiet tr"
  by (simp add: quiet_def)

lemma quiet_Emit: "quiet (Emit e # tr) = (\<not> shouldExitLoopFromEvent e \<and> quiet tr)"
  by (simp add: quiet_def)

lemma quiet_append: "quiet (xs @ ys) = (quiet xs \<and> quiet ys)"
  by (auto simp: quiet_def emitted_append)




section \<open>SequentialAgent: the output is the concatenation of the children's outputs\<close>

lemma emitted_forward_all: "emitted (forward_all subs c) = concat (child_outputs subs c)"
  by (induction subs arbitrary: c)
     (auto simp: emitted_append events_of_def stream_of_def split: sum.splits)

lemma length_child_outputs: "length (child_outputs subs c) = length subs"
  by (induction subs arbitrary: c) auto

text \<open>
  C3. As stated the claim fails for a sequential agent whose before-agent callback
  returns an error: the goroutine returns before it runs any child, and the output is
  empty although the child would emit an event.
\<close>

theorem SequentialAgent_before_callback_counterexample:
  "events_of (SequentialAgent_RunAsync
               ((NewSequentialAgent ''seq'' [leaf ''a''])\<lparr>BeforeAgentCallback := Some denied\<rparr>) ctx0)
     = []
   \<and> concat (child_outputs
       (SubAgents ((NewSequentialAgent ''seq'' [leaf ''a''])\<lparr>BeforeAgentCallback := Some denied\<rparr>))
       ctx0) = [leaf_event ''a'']"
  by (simp add: SequentialAgent_RunAsync_def NewSequentialAgent_def NewBaseAgent_def
      AddSubAgent_def call_def denied_def leaf_def events_of_def stream_of_def writes_def)

text \<open>
  C3 (amended). When the before-agent callback is absent or returns no error, the
  output stream of a sequential agent is exactly the concatenation, in list order, of
  the full output of each child, every child has its turn, and a child whose
  \<^verbatim>\<open>RunAsync\<close> returns an error contributes no event and leaves the context as it was
  for the next child.
\<close>

theorem SequentialAgent_output_is_concatenation:
  assumes "snd (call (BeforeAgentCallback a) c) = None"
  shows "events_of (SequentialAgent_RunAsync a c)
           = concat (child_outputs (SubAgents a) (started (BeforeAgentCallback a) c))
       \<and> length (child_outputs (SubAgents a) (started (BeforeAgentCallback a) c))
           = length (SubAgents a)
       \<and> (\<forall>subAgent rest c' err. subAgent c' = Inl err
            \<longrightarrow> forward_all (subAgent # rest) c' = forward_all rest c')"
  using assms
  by (auto simp: SequentialAgent_RunAsync_def Let_def emitted_append emitted_writes
      emitted_forward_all events_of_def stream_of_def started_def length_child_outputs
      split: prod.splits)

theorem SequentialAgent_output_is_concatenation_witness:
  "snd (call (BeforeAgentCallback (NewSequentialAgent ''seq'' [leaf ''a'', failing_agent, leaf ''b''])) ctx0)
     = None
   \<and> events_of (SequentialAgent_RunAsync
                 (NewSequentialAgent ''seq'' [leaf ''a'', failing_agent, leaf ''b'']) ctx0)
       = [leaf_event ''a'', leaf_event ''b'']"
proof -
  let ?a = "NewSequentialAgent ''seq'' [leaf ''a'', failing_agent, leaf ''b'']"
  have h: "snd (call (BeforeAgentCallback ?a) ctx0) = None"
    by (simp add: NewSequentialAgent_def NewBaseAgent_def AddSubAgent_def call_def)
  have s: "SubAgents ?a = [leaf ''a'', failing_agent, leaf ''b'']"
    by (simp add: NewSequentialAgent_def NewBaseAgent_def AddSubAgent_def)
  show ?thesis
    using h SequentialAgent_output_is_concatenation [OF h]
    by (simp add: s events_of_def stream_of_def leaf_def failing_agent_def)
qed

section \<open>LoopAgent: the number of passes\<close>

lemma forward_until_exit_quiet: "quiet s \<Longrightarrow> forward_until_exit s = (s, False)"
  by (induction s rule: forward_until_exit.induct) (auto simp: quiet_Write quiet_Emit)

lemma loop_iteration_quiet:
  "quiet (forward_all subs c) \<Longrightarrow> loop_iteration subs c = (forward_all subs c, False)"
  by (induction subs arbitrary: c)
     (auto simp: quiet_append forward_until_exit_quiet split: sum.splits)

lemma loop_from_passes:
  "nat (MaxIterations a - i) = n \<Longrightarrow> no_exit_signal n (SubAgents a) c
     \<Longrightarrow> loop_from a c i = passes n (SubAgents a) c"
proof (induction n arbitrary: c i)
  case 0
  then show ?case by (subst loop_from.simps) simp
next
  case (Suc n)
  from Suc.prems have lt: "i < MaxIterations a" by linarith
  from Suc.prems have n: "nat (MaxIterations a - (i + 1)) = n" by linarith
  from Suc.prems have q: "quiet (forward_all (SubAgents a) c)" and ne: "\<not> shouldExitLoop c"
    and rest: "no_exit_signal n (SubAgents a) (perform c (forward_all (SubAgents a) c))"
    by simp_all
  show ?case
    by (subst loop_from.simps)
       (simp add: lt ne loop_iteration_quiet [OF q] Suc.IH [OF n rest] Let_def)
qed

text \<open>
  C4. As stated the claim fails for a loop agent whose before-agent callback returns
  an error: no exit flag is set and no event signals an exit, the cap is 1, and yet no
  pass is made.
\<close>

theorem LoopAgent_before_callback_counterexample:
  "no_exit_signal 1 [leaf ''a''] ctx0
   \<and> emitted (passes 1 [leaf ''a''] ctx0) = [leaf_event ''a'']
   \<and> events_of (LoopAgent_RunAsync
                 ((NewLoopAgent ''loop'' [leaf ''a''] 1)\<lparr>BeforeAgentCallback := Some denied\<rparr>) ctx0)
       = []"
  by (simp add: LoopAgent_RunAsync_def NewLoopAgent_def call_def denied_def leaf_def
      events_of_def writes_def quiet_def shouldExitLoop_def shouldExitLoopFromEvent_def
      State_Get_def ctx0_def NewSession_def NewState_def leaf_event_def NewEvent_def
      EventActions_zero_def)

text \<open>
  C4 (amended). For a loop agent with \<^verbatim>\<open>MaxIterations\<close> \<open>K\<close> whose before-agent callback
  is absent or returns no error: if the exit flag is not set when a pass starts and no
  forwarded event signals an exit, the stream of \<^verbatim>\<open>RunAsync\<close> is exactly \<open>K\<close> full passes
  over the children in sequential order (none when \<open>K\<close> is not positive), between the
  writes of the two callbacks, and \<^verbatim>\<open>RunAsync\<close> returns no error.
\<close>

theorem LoopAgent_makes_K_passes:
  assumes "snd (call (BeforeAgentCallback a) c) = None"
    and "no_exit_signal (nat (MaxIterations a)) (SubAgents a) (started (BeforeAgentCallback a) c)"
  shows "LoopAgent_RunAsync a c =
           Inr (writes (fst (call (BeforeAgentCallback a) c))
                @ passes (nat (MaxIterations a)) (SubAgents a) (started (BeforeAgentCallback a) c)
                @ writes (fst (call (AfterAgentCallback a)
                    (perform (started (BeforeAgentCallback a) c)
                       (passes (nat (MaxIterations a)) (SubAgents a)
                          (started (BeforeAgentCallback a) c))))))"
  using assms
    loop_from_passes [of a 0 "nat (MaxIterations a)" "started (BeforeAgentCallback a) c"]
  by (auto simp: LoopAgent_RunAsync_def Let_def started_def split: prod.splits)

theorem LoopAgent_makes_K_passes_witness:
  "snd (call (BeforeAgentCallback (NewLoopAgent ''loop'' [leaf ''a'', leaf ''b''] 2)) ctx0) = None
   \<and> no_exit_signal (nat (MaxIterations (NewLoopAgent ''loop'' [leaf ''a'', leaf ''b''] 2)))
       (SubAgents (NewLoopAgent ''loop'' [leaf ''a'', leaf ''b''] 2))
       (started (BeforeAgentCallback (NewLoopAgent ''loop'' [leaf ''a'', leaf ''b''] 2)) ctx0)
   \<and> LoopAgent_RunAsync (NewLoopAgent ''loop'' [leaf ''a'', leaf ''b''] 2) ctx0
       = Inr [Emit (leaf_event ''a''), Emit (leaf_event ''b''),
              Emit (leaf_event ''a''), Emit (leaf_event ''b'')]"
proof -
  let ?a = "NewLoopAgent ''loop'' [leaf ''a'', leaf ''b''] 2"
  have two: "nat (MaxIterations ?a) = Suc (Suc 0)"
    by (simp add: NewLoopAgent_def)
  have st: "started (BeforeAgentCallback ?a) ctx0 = ctx0"
    by (simp add: NewLoopAgent_def started_def call_def writes_def)
  have h1: "snd (call (BeforeAgentCallback ?a) ctx0) = None"
    by (simp add: NewLoopAgent_def call_def)
  have h2: "no_exit_signal (nat (MaxIterations ?a)) (SubAgents ?a)
              (started (BeforeAgentCallback ?a) ctx0)"
    unfolding two st
    by (simp add: NewLoopAgent_def leaf_def quiet_def shouldExitLoop_def
        shouldExitLoopFromEvent_def State_Get_def ctx0_def NewSession_def NewState_def
        leaf_event_def NewEvent_def EventActions_zero_def)
  show ?thesis
    using h1 h2 LoopAgent_makes_K_passes [OF h1 h2]
    unfolding two st
    by (simp add: NewLoopAgent_def leaf_def call_def writes_def)
qed

section \<open>LoopAgent: an exit event is the last event\<close>







lemma quiet_emitless: "emitted xs = [] \<Longrightarrow> quiet xs"
  by (simp add: quiet_def)






section \<open>LlmAgent: the output key\<close>











section \<open>The registry: resolution is cached\<close>

text \<open>
  C7. Resolving a model identifier a second time gives the result of the first call
  again: the same handle, and the registry as the first call left it, so no factory is
  called a second time. \<^verbatim>\<open>GetCanonicalModel\<close> of the agent behaves likewise (it returns
  the handle cached in the agent), and a new agent has resolved nothing yet.
\<close>

theorem Resolve_is_cached:
  "Resolve modelName (snd (Resolve modelName registry)) = Resolve modelName registry
   \<and> factory_calls (snd (Resolve modelName (snd (Resolve modelName registry))))
       = factory_calls (snd (Resolve modelName registry))
   \<and> (let (l, a', registry') = GetCanonicalModel a registry
      in GetCanonicalModel a' registry' = (l, a', registry'))
   \<and> llm (NewLlmAgent name modelName instruction) = None"
  by (auto simp: Resolve_def NewLLM_def GetCanonicalModel_def NewLlmAgent_def Let_def
      split: option.splits sum.splits prod.splits if_splits)

theorem Resolve_is_cached_witness:
  "map_option handle (projr (fst (Resolve ''gemini-2.0-flash'' (defaultRegistry ''uuid'' 0)))) = Some 0
   \<and> factory_calls (snd (Resolve ''gemini-2.0-flash'' (defaultRegistry ''uuid'' 0))) = 1
   \<and> map_option handle (projr (fst (Resolve ''gemini-2.0-flash''
         (snd (Resolve ''gemini-2.0-flash'' (defaultRegistry ''uuid'' 0)))))) = Some 0
   \<and> factory_calls (snd (Resolve ''gemini-2.0-flash''
         (snd (Resolve ''gemini-2.0-flash'' (defaultRegistry ''uuid'' 0))))) = 1"
proof -
  have first: "map_option handle (projr (fst (Resolve ''gemini-2.0-flash'' (defaultRegistry ''uuid'' 0))))
        = Some 0
      \<and> factory_calls (snd (Resolve ''gemini-2.0-flash'' (defaultRegistry ''uuid'' 0))) = 1"
    by (simp add: Resolve_def NewLLM_def defaultRegistry_def Register_def NewGeminiLLM_def Let_def)
  from Resolve_is_cached [of "''gemini-2.0-flash''" "defaultRegistry ''uuid'' 0"]
  have "Resolve ''gemini-2.0-flash'' (snd (Resolve ''gemini-2.0-flash'' (defaultRegistry ''uuid'' 0)))
      = Resolve ''gemini-2.0-flash'' (defaultRegistry ''uuid'' 0)"
    by (rule conjunct1)
  with first show ?thesis by simp
qed

section \<open>The in-memory session service\<close>

text \<open>
  The key of a session joins the three identifiers with a colon and escapes nothing.
  Two triples can have one key; a session created with an empty session id has the
  prefix itself as its key and is not listed; and the prefix test of \<^verbatim>\<open>ListSessions\<close>
  tells the (application, user) pairs apart exactly when no application name and no
  user id contains a colon.
\<close>

lemma sessionKey_not_unique: "sessionKey ''a:b'' ''c'' ''s'' = sessionKey ''a'' ''b:c'' ''s''"
  by (simp add: sessionKey_def)

lemma ListSessions_skips_empty_session_id:
  "fst (ListSessions
         (snd (CreateSession NewInMemorySessionService ''uuid'' 0 ''a'' ''b'' [] None))
         ''a'' ''b'') = []"
  by (simp add: ListSessions_def CreateSession_def NewInMemorySessionService_def sessionKey_def
      Let_def)

lemma split_at_separator:
  "c \<notin> set x \<Longrightarrow> c \<notin> set y \<Longrightarrow> x @ c # r = y @ c # r' \<Longrightarrow> x = y \<and> r = r'"
proof (induction x arbitrary: y)
  case Nil
  then show ?case by (cases y) auto
next
  case (Cons a x)
  then show ?case by (cases y) auto
qed

lemma proper_prefix_iff:
  "(length p < length xs \<and> take (length p) xs = p) \<longleftrightarrow> (\<exists>r. r \<noteq> [] \<and> xs = p @ r)"
proof
  assume a: "length p < length xs \<and> take (length p) xs = p"
  then have "xs = p @ drop (length p) xs" by (metis append_take_drop_id)
  moreover from a have "drop (length p) xs \<noteq> []" by simp
  ultimately show "\<exists>r. r \<noteq> [] \<and> xs = p @ r" by blast
next
  assume "\<exists>r. r \<noteq> [] \<and> xs = p @ r"
  then show "length p < length xs \<and> take (length p) xs = p" by auto
qed

lemma prefix_match_without_colons:
  assumes "CHR '':'' \<notin> set appName" "CHR '':'' \<notin> set userID"
    and "CHR '':'' \<notin> set appName'" "CHR '':'' \<notin> set userID'"
  shows "(length (sessionKey appName' userID' sessionID) > length (appName @ '':'' @ userID @ '':'')
          \<and> take (length (appName @ '':'' @ userID @ '':'')) (sessionKey appName' userID' sessionID)
              = appName @ '':'' @ userID @ '':'')
         \<longleftrightarrow> (appName' = appName \<and> userID' = userID \<and> sessionID \<noteq> [])"
proof -
  have "(\<exists>r. r \<noteq> [] \<and> sessionKey appName' userID' sessionID = (appName @ '':'' @ userID @ '':'') @ r)
        \<longleftrightarrow> (appName' = appName \<and> userID' = userID \<and> sessionID \<noteq> [])"
  proof
    assume "\<exists>r. r \<noteq> [] \<and> sessionKey appName' userID' sessionID = (appName @ '':'' @ userID @ '':'') @ r"
    then obtain r where r: "r \<noteq> []"
      and eq: "appName' @ CHR '':'' # (userID' @ CHR '':'' # sessionID)
                = appName @ CHR '':'' # (userID @ CHR '':'' # r)"
      by (auto simp: sessionKey_def)
    from split_at_separator [OF assms(3) assms(1) eq]
    have a: "appName' = appName" and eq2: "userID' @ CHR '':'' # sessionID = userID @ CHR '':'' # r"
      by simp_all
    from split_at_separator [OF assms(4) assms(2) eq2] r a
    show "appName' = appName \<and> userID' = userID \<and> sessionID \<noteq> []" by simp
  next
    assume "appName' = appName \<and> userID' = userID \<and> sessionID \<noteq> []"
    then show "\<exists>r. r \<noteq> [] \<and> sessionKey appName' userID' sessionID = (appName @ '':'' @ userID @ '':'') @ r"
      by (auto simp: sessionKey_def)
  qed
  then show ?thesis using proper_prefix_iff [of "appName @ '':'' @ userID @ '':''"
        "sessionKey appName' userID' sessionID"] by simp
qed

text \<open>
  C9. \<^verbatim>\<open>ListSessions\<close> on a failing input: a session is created for the user \<^verbatim>\<open>b:c\<close> of
  application \<^verbatim>\<open>a\<close>; listing the sessions of user \<^verbatim>\<open>b\<close> of application \<^verbatim>\<open>a\<close> returns it,
  because its key \<^verbatim>\<open>a:b:c:s\<close> begins with the prefix \<^verbatim>\<open>a:b:\<close>.
\<close>

theorem ListSessions_returns_other_users_session:
  "fst (ListSessions
         (snd (CreateSession NewInMemorySessionService ''uuid'' 0 ''a'' ''b:c'' ''s'' None))
         ''a'' ''b'') = [0]
   \<and> UserID (objects
         (snd (CreateSession NewInMemorySessionService ''uuid'' 0 ''a'' ''b:c'' ''s'' None)) 0)
       = ''b:c''"
  by (simp add: ListSessions_def CreateSession_def NewInMemorySessionService_def sessionKey_def
      NewSession_def Let_def)



section \<open>Runner: events are persisted before they are relayed\<close>

lemma observed_persist_then_send: "observed (persist_then_send es) = es"
  by (induction es) (auto simp: persist_then_send_def)

lemma relay_result:
  assumes "map_of (sessions s) (sessionKey (Runner.AppName r) userID sessionID) = Some p"
  shows "relay r s tm n userID sessionID p stream = (s', steps) \<Longrightarrow>
           sessions s' = sessions s
         \<and> Events (objects s' p) = Events (objects s p) @ emitted stream
         \<and> steps = persist_then_send (emitted stream)"
  using assms
proof (induction stream arbitrary: s n s' steps)
  case Nil
  then show ?case by (simp add: persist_then_send_def)
next
  case (Cons x stream)
  show ?case
  proof (cases x)
    case (Write k v)
    let ?s1 = "s\<lparr>objects := (objects s)
            (p := (objects s p)\<lparr>State := State_Set (State (objects s p)) k v\<rparr>)\<rparr>"
    from Cons.prems Write have r: "relay r ?s1 tm n userID sessionID p stream = (s', steps)" by simp
    have k: "map_of (sessions ?s1) (sessionKey (Runner.AppName r) userID sessionID) = Some p"
      using Cons.prems(2) by simp
    from Cons.IH [OF r k] Write show ?thesis by simp
  next
    case (Emit e)
    let ?s1 = "s\<lparr>objects := (objects s)(p := AddEvent (objects s p) (tm n) e)\<rparr>"
    have a: "AppendEvent s (tm n) (Runner.AppName r) userID sessionID e = (None, ?s1)"
      using Cons.prems(2) by (simp add: AppendEvent_def)
    obtain s2 st2 where r: "relay r ?s1 tm (Suc n) userID sessionID p stream = (s2, st2)"
      by (cases "relay r ?s1 tm (Suc n) userID sessionID p stream")
    have k: "map_of (sessions ?s1) (sessionKey (Runner.AppName r) userID sessionID) = Some p"
      using Cons.prems(2) by simp
    from Cons.prems(1) Emit a r have "s' = s2" "steps = CallAppendEvent e # SendOutput e # st2"
      by simp_all
    with Cons.IH [OF r k] Emit show ?thesis
      by (simp add: AddEvent_def persist_then_send_def)
  qed
qed

lemma getOrCreateSession_result:
  "\<exists>p s1. getOrCreateSession r s uid now userID sessionID = ((Some p, None), s1)
     \<and> map_of (sessions s1) (sessionKey (Runner.AppName r) userID sessionID) = Some p
     \<and> Events (objects s1 p) = persisted s (Runner.AppName r) userID sessionID"
  by (cases "map_of (sessions s) (sessionKey (Runner.AppName r) userID sessionID)")
     (auto simp: getOrCreateSession_def GetSession_def CreateSession_def ListEvents_def
       persisted_def GetEvents_def NewSession_def Let_def update_conv')



section \<open>Runner: the user event\<close>

text \<open>
  C2. As stated the claim fails: the user event is not sent to the caller. With a
  non-nil message and a root agent that emits one event, the caller receives that one
  event, whose author is the agent.
\<close>

theorem Runner_first_observed_counterexample:
  "fst (Runner_RunAsync runner0 NewInMemorySessionService ''sid'' ''eid'' (\<lambda>k. 0) (\<lambda>n. 0)
          ''user'' ''s1'' (Some hello)) = Inr [leaf_event ''agent'']
   \<and> Author (leaf_event ''agent'') \<noteq> ''user''"
  by (simp add: Runner_RunAsync_def getOrCreateSession_def GetSession_def CreateSession_def
      NewInMemorySessionService_def runner0_def leaf_def AppendEvent_def sessionKey_def
      Let_def leaf_event_def)

text \<open>
  C2 (amended). For every \<^verbatim>\<open>RunAsync\<close> with a non-nil message, the first event that the
  call adds to the persisted event list of the session has the author \<^verbatim>\<open>user\<close> and the
  message as its content, and it is in the session before the root agent is invoked
  (the context of the agent has it). It is not sent to the caller: the caller receives
  exactly the events of the root agent.
\<close>

theorem Runner_user_event_persisted_first:
  assumes "Runner_RunAsync r s uid_session uid_event now tm userID sessionID (Some message)
             = (res, s', steps)"
    and "event = userEvent uid_event (now 1) message"
  shows "Author event = ''user'' \<and> Content event = Some message
       \<and> (\<exists>rest. persisted s' (Runner.AppName r) userID sessionID
                    = persisted s (Runner.AppName r) userID sessionID @ event # rest)
       \<and> (\<exists>invocationCtx. event \<in> set (Events (Session invocationCtx))
            \<and> (case res of
                  Inl err \<Rightarrow> (\<exists>e. Agent r invocationCtx = Inl e)
                | Inr out \<Rightarrow> (\<exists>stream. Agent r invocationCtx = Inr stream \<and> out = emitted stream)))"
proof -
  let ?key = "sessionKey (Runner.AppName r) userID sessionID"
  from getOrCreateSession_result [of r s uid_session "now 0" userID sessionID]
  obtain p s1 where g: "getOrCreateSession r s uid_session (now 0) userID sessionID = ((Some p, None), s1)"
    and k1: "map_of (sessions s1) ?key = Some p"
    and old: "Events (objects s1 p) = persisted s (Runner.AppName r) userID sessionID" by blast
  define s1' where "s1' = s1\<lparr>objects := (objects s1) (p := AddEvent (objects s1 p) (now 2) event)\<rparr>"
  define s2 where "s2 = snd (AppendEvent s1' (now 3) (Runner.AppName r) userID sessionID event)"
  have k2: "map_of (sessions s2) ?key = Some p"
    using k1 by (auto simp: s2_def s1'_def AppendEvent_def Let_def)
  have e2: "Events (objects s2 p) = persisted s (Runner.AppName r) userID sessionID @ [event, event]"
    using k1 old by (simp add: s2_def s1'_def AppendEvent_def AddEvent_def Let_def)
  define ictx where "ictx = \<lparr>Session = objects s2 p\<rparr>"
  have inctx: "event \<in> set (Events (Session ictx))" by (simp add: ictx_def e2)
  have au: "Author event = ''user'' \<and> Content event = Some message"
    by (simp add: assms(2) userEvent_def)
  show ?thesis
  proof (cases "Agent r ictx")
    case (Inl err)
    with assms g have "s' = s2" "\<exists>e. res = Inl e"
      by (auto simp: Runner_RunAsync_def Let_def s2_def s1'_def ictx_def)
    with k2 e2 Inl inctx au show ?thesis
      by (auto simp: persisted_def ListEvents_def GetEvents_def intro!: exI [of _ ictx])
  next
    case (Inr stream)
    with assms g obtain rl: "relay r s2 tm 0 userID sessionID p stream = (s', steps)"
      and out: "res = Inr (observed steps)"
      by (auto simp: Runner_RunAsync_def Let_def s2_def s1'_def ictx_def split: prod.splits)
    from relay_result [OF k2 rl] have ks: "sessions s' = sessions s2"
      and ev: "Events (objects s' p) = Events (objects s2 p) @ emitted stream"
      and st: "steps = persist_then_send (emitted stream)" by simp_all
    from out st have o: "res = Inr (emitted stream)" by (simp add: observed_persist_then_send)
    from ks k2 ev e2 have "persisted s' (Runner.AppName r) userID sessionID
        = persisted s (Runner.AppName r) userID sessionID @ event # (event # emitted stream)"
      by (simp add: persisted_def ListEvents_def GetEvents_def)
    with o Inr inctx au show ?thesis by (auto intro!: exI [of _ ictx])
  qed
qed

theorem Runner_user_event_persisted_first_witness:
  "persisted (fst (snd (Runner_RunAsync runner0 NewInMemorySessionService ''sid'' ''eid''
       (\<lambda>k. 0) (\<lambda>n. 0) ''user'' ''s1'' (Some hello)))) ''app'' ''user'' ''s1''
     = [userEvent ''eid'' 0 hello, userEvent ''eid'' 0 hello, leaf_event ''agent'']
   \<and> Author (userEvent ''eid'' 0 hello) = ''user''
   \<and> Content (userEvent ''eid'' 0 hello) = Some hello"
proof -
  let ?run = "Runner_RunAsync runner0 NewInMemorySessionService ''sid'' ''eid''
       (\<lambda>k. 0) (\<lambda>n. 0) ''user'' ''s1'' (Some hello)"
  have p: "persisted (fst (snd ?run)) ''app'' ''user'' ''s1''
      = [userEvent ''eid'' 0 hello, userEvent ''eid'' 0 hello, leaf_event ''agent'']"
    by (simp add: Runner_RunAsync_def getOrCreateSession_def GetSession_def CreateSession_def
        NewInMemorySessionService_def runner0_def leaf_def AppendEvent_def sessionKey_def
        Let_def persisted_def ListEvents_def GetEvents_def AddEvent_def NewSession_def)
  have h: "?run = (fst ?run, fst (snd ?run), snd (snd ?run))" by simp
  from Runner_user_event_persisted_first [OF h refl]
  have "Author (userEvent ''eid'' 0 hello) = ''user'' \<and> Content (userEvent ''eid'' 0 hello) = Some hello"
    by blast
  with p show ?thesis by simp
qed


end
